theory Spec2Isabelle
  imports Complex_Main "HOL-Library.AList"
begin

section \<open>Numbers\<close>

text \<open>
  Quantities, proportions, distances and costs are Python numbers: \<open>float\<close> (IEEE 754
  binary64) when they come from the entry fields, \<open>int\<close> after \<open>int(round(...))\<close>. A number
  is embedded as the rational it denotes, and every arithmetic operation of the source is the
  exact operation followed by the rounding \<open>fl\<close> to the nearest double (53 significant bits,
  a tie going to the even significand). The exponent range is taken unbounded: overflow to
  infinity, subnormal numbers and nan are outside the model. The arithmetic of Python's
  \<open>int\<close> is exact, and so is that of the model on the integers up to \<open>2^53\<close>. Days are Python's
  unbounded \<open>int\<close>.
\<close>

text \<open>Python 3 \<open>round(x)\<close>: to the nearest integer, a tie going to the even neighbour.\<close>

definition py_round :: "rat \<Rightarrow> int" where
  "py_round x =
     (let f = \<lfloor>x\<rfloor>; d = x - of_int f
      in if d < 1 / 2 then f
         else if 1 / 2 < d then f + 1
         else if even f then f else f + 1)"

text \<open>The number of binary digits of a positive integer.\<close>

function bitlen :: "int \<Rightarrow> int" where
  "bitlen n = (if 0 < n then 1 + bitlen (n div 2) else 0)"
  by pat_completeness auto
termination
  by (relation "measure nat") auto

declare bitlen.simps [simp del]

text \<open>The binary exponent of a positive number: \<open>2^e \<le> x < 2^(e + 1)\<close>.\<close>

definition ilog2 :: "rat \<Rightarrow> int" where
  "ilog2 x =
     (case quotient_of x of
        (p, q) \<Rightarrow>
          (let d = bitlen p - bitlen q
           in if 2 powi d \<le> x then d else d - 1))"

text \<open>The nearest double: the nearest multiple of \<open>2^(e - 52)\<close>, a tie going to even.\<close>

definition fl :: "rat \<Rightarrow> rat" where
  "fl x =
     (if x = 0 then 0
      else (let u = 2 powi (ilog2 \<bar>x\<bar> - 52)
            in sgn x * of_int (py_round (\<bar>x\<bar> / u)) * u))"

text \<open>The operations \<open>+\<close>, \<open>-\<close>, \<open>*\<close> and \<open>/\<close> on doubles.\<close>

definition fadd :: "rat \<Rightarrow> rat \<Rightarrow> rat" where
  "fadd x y = fl (x + y)"

definition fsub :: "rat \<Rightarrow> rat \<Rightarrow> rat" where
  "fsub x y = fl (x - y)"

definition fmul :: "rat \<Rightarrow> rat \<Rightarrow> rat" where
  "fmul x y = fl (x * y)"

definition fdiv :: "rat \<Rightarrow> rat \<Rightarrow> rat" where
  "fdiv x y = fl (x / y)"

text \<open>
  \<open>sum(...)\<close> over doubles: from zero, left to right, every partial sum rounded (CPython
  before 3.12; later versions carry a compensation term, which changes nothing where the
  partial sums are exact).
\<close>

definition fsum :: "rat list \<Rightarrow> rat" where
  "fsum xs = foldl fadd 0 xs"

text \<open>
  \<open>round(x, 2)\<close>: the decimal with two places nearest to the double \<open>x\<close>, a tie going to
  even, converted back to the nearest double.
\<close>

definition py_round2 :: "rat \<Rightarrow> rat" where
  "py_round2 x = fl (of_int (py_round (x * 100)) / 100)"

text \<open>\<open>int(x)\<close> truncates towards zero.\<close>

definition py_int :: "rat \<Rightarrow> int" where
  "py_int x = (if 0 \<le> x then \<lfloor>x\<rfloor> else \<lceil>x\<rceil>)"

section \<open>Data model\<close>

text \<open>The value stored in \<open>batches[p_day]\<close>.\<close>

record batch =
  initial :: rat
  current :: rat
  expiry :: int

text \<open>One element of \<open>self.distributors\<close>.\<close>

record distributor =
  name :: string
  policy_days :: int
  proportion :: rat
  distance_km :: rat
  purchase_days :: "bool list"
  preferred_products :: "string list"

text \<open>One value of \<open>self.products\<close>; the production plan is a dict from day to quantity.\<close>

record product =
  shelf_life :: int
  production_plan :: "int \<rightharpoonup> rat"

text \<open>One row appended to \<open>purchases\<close>; the fields are the row's keys.\<close>

record purchase =
  Product :: string
  Day :: int
  Distributor :: string
  Batch_Day :: int
  Quantity :: rat
  Shelf_Age :: int
  Policy :: int
  Proportion :: rat
  Transport_Cost :: rat

text \<open>
  One row of \<open>inventory_log\<close>: the day, the phase and the columns \<open>Q<b_day>\<close> in ascending
  batch day, each holding \<open>int(current)\<close>.
\<close>

record log_entry =
  Log_Day :: int
  Phase :: string
  Q :: "(int \<times> int) list"

text \<open>
  One row of \<open>waste_data\<close>. The column \<open>Waste_Pct_Display\<close> is the text of \<open>Waste_Pct\<close>
  followed by a percent sign and is left out.
\<close>

record waste_row =
  Waste_Product :: string
  Waste_Batch_Day :: int
  Initial :: rat
  Waste :: rat
  Waste_Pct :: rat

text \<open>
  The local variables of one product's day loop, together with the running
  \<open>self.total_transport_cost\<close>. The dicts \<open>batches\<close> and \<open>waste\<close> are association lists in
  insertion order: \<open>d[k] = v\<close> is \<open>AList.update\<close>, \<open>del d[k]\<close> is \<open>AList.delete\<close>, \<open>d[k]\<close> is
  \<open>map_of\<close>.
\<close>

record sim_state =
  batches :: "(int \<times> batch) list"
  purchases :: "purchase list"
  inventory_log :: "log_entry list"
  waste :: "(int \<times> rat) list"
  total_transport_cost :: rat

text \<open>
  One value of \<open>self.all_results\<close>. The entry \<open>batch_pivot\<close> is a pandas pivot of
  \<open>purchases\<close> alone and is not modelled.
\<close>

record product_result =
  result_purchases :: "purchase list"
  result_waste :: "waste_row list"
  result_inventory_log :: "log_entry list"

text \<open>The object \<open>self\<close> of \<open>PerishableSupplyChain\<close>.\<close>

record supply_chain =
  products :: "(string \<times> product) list"
  distributors :: "distributor list"
  transport_rate :: rat
  sim_days_override :: "int option"
  all_results :: "(string \<times> product_result) list"
  self_total_transport_cost :: rat
  self_total_waste_cost :: rat

datatype py_error = TypeError

section \<open>The day loop of \<open>run_simulation\<close>\<close>

text \<open>Lines 46-52: a new batch when the plan has a positive quantity for today.\<close>

definition add_batch :: "int \<Rightarrow> (int \<rightharpoonup> rat) \<Rightarrow> int \<Rightarrow> sim_state \<Rightarrow> sim_state" where
  "add_batch shelf_life' production_plan' current_day st =
     (case production_plan' current_day of
        None \<Rightarrow> st
      | Some qty \<Rightarrow>
          if 0 < qty
          then st\<lparr>batches :=
                 AList.update current_day
                   \<lparr>initial = qty, current = qty, expiry = current_day + shelf_life' - 1\<rparr>
                   (batches st)\<rparr>
          else st)"

text \<open>
  Lines 55-58 and 153-156: a snapshot of the ledger, the batches in ascending batch day.
  The keys of a dict are distinct, so sorting the items by key visits the same batches as
  \<open>sorted(batches.keys())\<close> followed by \<open>batches[b_day]\<close>.
\<close>

definition log_inventory :: "string \<Rightarrow> int \<Rightarrow> sim_state \<Rightarrow> sim_state" where
  "log_inventory phase current_day st =
     st\<lparr>inventory_log := inventory_log st @
          [\<lparr>Log_Day = current_day, Phase = phase,
            Q = map (\<lambda>(b_day, b). (b_day, py_int (current b))) (sort_key fst (batches st))\<rparr>]\<rparr>"

text \<open>
  Lines 61-65: every batch whose expiry is today becomes waste and leaves the ledger.
  \<open>expired_days\<close> is computed from the ledger first; the loop then reads each of them.
\<close>

fun expire_loop :: "int list \<Rightarrow> sim_state \<Rightarrow> sim_state" where
  "expire_loop [] st = st"
| "expire_loop (p_day # rest) st =
     (case map_of (batches st) p_day of
        None \<Rightarrow> expire_loop rest st
      | Some b \<Rightarrow>
          expire_loop rest
            (st\<lparr>waste := AList.update p_day (current b) (waste st),
                batches := AList.delete p_day (batches st)\<rparr>))"

definition expire_batches :: "int \<Rightarrow> sim_state \<Rightarrow> sim_state" where
  "expire_batches current_day st =
     expire_loop (map fst (filter (\<lambda>(p_day, b). expiry b = current_day) (batches st))) st"

subsection \<open>Allocation to one distributor\<close>

text \<open>The purchase row of lines 113-123 and 135-145.\<close>

definition purchase_row :: "string \<Rightarrow> int \<Rightarrow> distributor \<Rightarrow> rat \<Rightarrow> int \<Rightarrow> rat \<Rightarrow> purchase" where
  "purchase_row prod_name current_day distr rate p_day share =
     \<lparr>Product = prod_name, Day = current_day, Distributor = name distr, Batch_Day = p_day,
      Quantity = share, Shelf_Age = current_day - p_day, Policy = policy_days distr,
      Proportion = py_round2 (proportion distr),
      Transport_Cost = fmul (fmul share (distance_km distr)) rate\<rparr>"

text \<open>
  Lines 106-123 and 129-145, the same in the loop and for the last batch: the batch object
  (shared between \<open>valid_batches\<close> and \<open>batches\<close>) loses \<open>share\<close>, and a positive share adds
  its transport cost to the running total and appends a purchase row.
\<close>

definition take_share ::
  "string \<Rightarrow> int \<Rightarrow> distributor \<Rightarrow> rat \<Rightarrow> int \<Rightarrow> batch \<Rightarrow> rat \<Rightarrow> sim_state \<Rightarrow> sim_state" where
  "take_share prod_name current_day distr rate p_day b share st =
     (let st1 = st\<lparr>batches :=
                     AList.update p_day (b\<lparr>current := fsub (current b) share\<rparr>) (batches st)\<rparr>
      in if 0 < share
         then st1\<lparr>total_transport_cost :=
                    fadd (total_transport_cost st1)
                      (fmul (fmul share (distance_km distr)) rate),
                  purchases := purchases st1 @
                    [purchase_row prod_name current_day distr rate p_day share]\<rparr>
         else st1)"

text \<open>
  Lines 103-123: the loop over \<open>sorted_batches[:-1]\<close>. The pair carries the state and
  \<open>remaining_purchase\<close>.
\<close>

fun allocate_loop ::
  "string \<Rightarrow> int \<Rightarrow> distributor \<Rightarrow> rat \<Rightarrow> rat \<Rightarrow> int \<Rightarrow> (int \<times> batch) list \<Rightarrow>
   sim_state \<times> rat \<Rightarrow> sim_state \<times> rat" where
  "allocate_loop prod_name current_day distr rate total_available total_purchase [] acc = acc"
| "allocate_loop prod_name current_day distr rate total_available total_purchase
     ((p_day, b) # rest) (st, remaining_purchase) =
     (let share0 = of_int (py_round (fmul (fdiv (current b) total_available)
                                          (of_int total_purchase)));
          share = min (min share0 (current b)) remaining_purchase
      in allocate_loop prod_name current_day distr rate total_available total_purchase rest
           (take_share prod_name current_day distr rate p_day b share st,
            fsub remaining_purchase share))"

text \<open>Lines 126-145: the last batch takes what is left, capped at its own stock.\<close>

definition allocate_last ::
  "string \<Rightarrow> int \<Rightarrow> distributor \<Rightarrow> rat \<Rightarrow> (int \<times> batch) list \<Rightarrow> sim_state \<times> rat \<Rightarrow> sim_state" where
  "allocate_last prod_name current_day distr rate sorted_batches acc =
     (case acc of (st, remaining_purchase) \<Rightarrow>
        if sorted_batches = [] then st
        else (case last sorted_batches of (p_day, b) \<Rightarrow>
                take_share prod_name current_day distr rate p_day b
                  (min remaining_purchase (current b)) st))"

text \<open>Lines 148-150: batches of \<open>valid_batches\<close> left without stock leave the ledger.\<close>

fun remove_empty :: "int list \<Rightarrow> (int \<times> batch) list \<Rightarrow> (int \<times> batch) list" where
  "remove_empty [] bs = bs"
| "remove_empty (p_day # rest) bs =
     remove_empty rest
       (case map_of bs p_day of
          None \<Rightarrow> bs
        | Some b \<Rightarrow> if current b \<le> 0 then AList.delete p_day bs else bs)"

text \<open>Lines 87-90: the batches young enough for the policy that still have stock.\<close>

definition valid_batches :: "int \<Rightarrow> distributor \<Rightarrow> (int \<times> batch) list \<Rightarrow> (int \<times> batch) list" where
  "valid_batches current_day distr bs =
     filter (\<lambda>(p_day, b). current_day - p_day < policy_days distr \<and> 0 < current b) bs"

text \<open>Line 96.\<close>

definition total_available :: "(int \<times> batch) list \<Rightarrow> rat" where
  "total_available valid = fsum (map (\<lambda>(p_day, b). current b) valid)"

text \<open>Line 97, with the proportion of line 77.\<close>

definition total_purchase :: "distributor \<Rightarrow> (int \<times> batch) list \<Rightarrow> int" where
  "total_purchase distr valid =
     py_round (fmul (py_round2 (proportion distr)) (total_available valid))"

text \<open>
  Lines 81-83, the three tests of the \<open>or\<close> in their order. The day loop runs from day 1,
  so \<open>current_day - 1\<close> is a valid index once the first test has failed.
\<close>

definition skips_day :: "distributor \<Rightarrow> int \<Rightarrow> bool" where
  "skips_day distr current_day =
     (if int (length (purchase_days distr)) < current_day then True
      else if purchase_days distr ! nat (current_day - 1) then current_day mod 7 = 0
      else True)"

text \<open>Lines 95-150: the allocation proper, once the distributor has eligible batches.\<close>

definition allocate :: "string \<Rightarrow> int \<Rightarrow> distributor \<Rightarrow> rat \<Rightarrow> sim_state \<Rightarrow> sim_state" where
  "allocate prod_name current_day distr rate st =
     (let valid = valid_batches current_day distr (batches st);
          avail = total_available valid;
          total = total_purchase distr valid;
          sorted_batches = sort_key fst valid;
          acc = allocate_loop prod_name current_day distr rate avail total
                  (butlast sorted_batches) (st, of_int total);
          st1 = allocate_last prod_name current_day distr rate sorted_batches acc
      in st1\<lparr>batches := remove_empty (map fst valid) (batches st1)\<rparr>)"

text \<open>Lines 70-150: the body of the loop over the distributors.\<close>

definition process_distributor ::
  "string \<Rightarrow> int \<Rightarrow> rat \<Rightarrow> sim_state \<Rightarrow> distributor \<Rightarrow> sim_state" where
  "process_distributor prod_name current_day rate st distr =
     (if prod_name \<in> set (preferred_products distr)
      then if skips_day distr current_day then st
           else if valid_batches current_day distr (batches st) = [] then st
           else allocate prod_name current_day distr rate st
      else st)"

text \<open>Lines 68-150: the distributors in ascending policy window (\<open>sorted\<close> is stable).\<close>

definition process_distributors ::
  "string \<Rightarrow> int \<Rightarrow> rat \<Rightarrow> distributor list \<Rightarrow> sim_state \<Rightarrow> sim_state" where
  "process_distributors prod_name current_day rate dists st =
     foldl (process_distributor prod_name current_day rate) st (sort_key policy_days dists)"

text \<open>Lines 44-156: one day.\<close>

definition simulate_day ::
  "string \<Rightarrow> product \<Rightarrow> distributor list \<Rightarrow> rat \<Rightarrow> sim_state \<Rightarrow> int \<Rightarrow> sim_state" where
  "simulate_day prod_name prod_data dists rate st current_day =
     log_inventory ''End'' current_day
       (process_distributors prod_name current_day rate dists
          (expire_batches current_day
             (log_inventory ''Start'' current_day
                (add_batch (shelf_life prod_data) (production_plan prod_data) current_day st))))"

text \<open>Lines 38-41: the empty ledger and logs a product starts from.\<close>

definition initial_state :: "rat \<Rightarrow> sim_state" where
  "initial_state cost =
     \<lparr>batches = [], purchases = [], inventory_log = [], waste = [],
      total_transport_cost = cost\<rparr>"

text \<open>Line 44: \<open>for current_day in range(1, total_days + 1)\<close>.\<close>

definition simulate_days ::
  "string \<Rightarrow> product \<Rightarrow> distributor list \<Rightarrow> rat \<Rightarrow> int \<Rightarrow> rat \<Rightarrow> sim_state" where
  "simulate_days prod_name prod_data dists rate total_days cost =
     foldl (simulate_day prod_name prod_data dists rate) (initial_state cost) [1..total_days]"

section \<open>Results of one product and the loop over the products\<close>

text \<open>Lines 162-185.\<close>

definition waste_data :: "string \<Rightarrow> (int \<rightharpoonup> rat) \<Rightarrow> (int \<times> rat) list \<Rightarrow> int \<Rightarrow> waste_row list" where
  "waste_data prod_name production_plan' waste' total_days =
     map (\<lambda>day.
            let initial' = (case production_plan' day of None \<Rightarrow> 0 | Some q \<Rightarrow> q)
            in if 0 < initial'
               then (let expired = (case map_of waste' day of None \<Rightarrow> 0 | Some w \<Rightarrow> w);
                         waste_pct = fmul (fdiv expired initial') 100
                     in \<lparr>Waste_Product = prod_name, Waste_Batch_Day = day, Initial = initial',
                         Waste = expired, Waste_Pct = py_round2 waste_pct\<rparr>)
               else \<lparr>Waste_Product = prod_name, Waste_Batch_Day = day, Initial = 0,
                     Waste = 0, Waste_Pct = 0\<rparr>)
         [1..total_days]"

text \<open>Lines 34-209: one iteration of the loop over \<open>self.products\<close>.\<close>

definition simulate_product :: "int \<Rightarrow> supply_chain \<Rightarrow> string \<times> product \<Rightarrow> supply_chain" where
  "simulate_product total_days self item =
     (case item of (prod_name, prod_data) \<Rightarrow>
        let st = simulate_days prod_name prod_data (distributors self) (transport_rate self)
                   total_days (self_total_transport_cost self)
        in self\<lparr>self_total_transport_cost := total_transport_cost st,
                all_results :=
                  AList.update prod_name
                    \<lparr>result_purchases = purchases st,
                     result_waste =
                       waste_data prod_name (production_plan prod_data) (waste st) total_days,
                     result_inventory_log = inventory_log st\<rparr>
                    (all_results self)\<rparr>)"

text \<open>
  Lines 27-211. The totals and the results are reset first. \<open>sim_days_override\<close> defaults to
  \<open>None\<close>, and then \<open>range(1, total_days + 1)\<close> raises for the first product.
\<close>

definition run_simulation :: "supply_chain \<Rightarrow> py_error + supply_chain" where
  "run_simulation self =
     (let self0 = self\<lparr>all_results := [], self_total_transport_cost := 0,
                       self_total_waste_cost := 0\<rparr>
      in if products self0 = [] then Inr self0
         else (case sim_days_override self0 of
                 None \<Rightarrow> Inl TypeError
               | Some total_days \<Rightarrow> Inr (foldl (simulate_product total_days) self0 (products self0))))"

section \<open>\<open>optimize_production\<close>\<close>

text \<open>
  The integer program handed to the solver: the variables \<open>x[day]\<close> (integer, lower bound 0),
  the objective \<open>total_cost\<close> as the terms added to it, each a variable with its coefficient,
  and the variables constrained to equal zero.
\<close>

record lp_problem =
  lp_variables :: "int list"
  lp_objective :: "(int \<times> rat) list"
  lp_zero :: "int list"

text \<open>Lines 221-222: the constants of the optimizer.\<close>

definition opt_transport_rate :: rat where
  "opt_transport_rate = 1 / 100"

definition waste_cost_per_unit :: rat where
  "waste_cost_per_unit = 1"

text \<open>Line 233: the days \<open>range(day, min(day + policy_days, sim_days + 1))\<close>.\<close>

definition window_days :: "distributor \<Rightarrow> int \<Rightarrow> int \<Rightarrow> int list" where
  "window_days distr sim_days day = [day..min (day + policy_days distr) (sim_days + 1) - 1]"

text \<open>Lines 231-235: the terms one distributor adds for the batch of \<open>day\<close>.\<close>

definition transport_terms :: "int \<Rightarrow> int \<Rightarrow> distributor \<Rightarrow> (int \<times> rat) list" where
  "transport_terms sim_days day distr =
     map (\<lambda>d. (day, proportion distr * opt_transport_rate))
       (filter (\<lambda>d. d mod 7 \<noteq> 0) (window_days distr sim_days day))"

text \<open>Lines 226-235: the terms added for one day.\<close>

definition day_terms :: "distributor list \<Rightarrow> int \<Rightarrow> int \<Rightarrow> (int \<times> rat) list" where
  "day_terms dists sim_days day =
     (day, waste_cost_per_unit * (1 / 10)) # concat (map (transport_terms sim_days day) dists)"

text \<open>Lines 215-242.\<close>

definition build_problem :: "supply_chain \<Rightarrow> int \<Rightarrow> lp_problem" where
  "build_problem self sim_days =
     (let days = [1..sim_days]
      in \<lparr>lp_variables = days,
          lp_objective = concat (map (day_terms (distributors self) sim_days) days),
          lp_zero = filter (\<lambda>day. day mod 7 = 0) days\<rparr>)"

text \<open>\<open>v or 0\<close> on the \<open>varValue\<close> of a variable, which is \<open>None\<close> or a number.\<close>

definition or_zero :: "rat option \<Rightarrow> rat" where
  "or_zero v = (case v of None \<Rightarrow> 0 | Some a \<Rightarrow> if a = 0 then 0 else a)"

text \<open>
  Lines 213-248. The solver is a library outside the repository; \<open>solve\<close> stands for
  \<open>prob.solve\<close> followed by reading \<open>varValue\<close>, and gives each variable its value or
  \<open>None\<close>. The result is the dict \<open>recommendation\<close> in the order of \<open>days\<close>.
\<close>

definition optimize_production ::
  "(lp_problem \<Rightarrow> int \<Rightarrow> rat option) \<Rightarrow> supply_chain \<Rightarrow> int \<Rightarrow> int \<Rightarrow> (int \<times> int) list" where
  "optimize_production solve self sim_days shelf_life' =
     (let days = [1..sim_days];
          varValue = solve (build_problem self sim_days)
      in map (\<lambda>day. (day, py_int (or_zero (varValue day)))) days)"

subsection \<open>What the solver is asked for\<close>

text \<open>The value of the objective under an assignment of the variables.\<close>

definition lp_value :: "lp_problem \<Rightarrow> (int \<Rightarrow> rat) \<Rightarrow> rat" where
  "lp_value prob x = sum_list (map (\<lambda>(v, c). c * x v) (lp_objective prob))"

text \<open>The coefficient of a variable in the objective.\<close>

definition lp_coefficient :: "lp_problem \<Rightarrow> int \<Rightarrow> rat" where
  "lp_coefficient prob v = sum_list (map snd (filter (\<lambda>(w, c). w = v) (lp_objective prob)))"

text \<open>An assignment is feasible when it is integral, non-negative and meets the constraints.\<close>

definition lp_feasible :: "lp_problem \<Rightarrow> (int \<Rightarrow> rat) \<Rightarrow> bool" where
  "lp_feasible prob x \<longleftrightarrow>
     list_all (\<lambda>v. 0 \<le> x v \<and> x v \<in> \<int>) (lp_variables prob) \<and>
     list_all (\<lambda>v. x v = 0) (lp_zero prob)"

text \<open>The solver's contract for the status "Optimal": the values are a feasible minimiser.\<close>

definition lp_optimal :: "lp_problem \<Rightarrow> (int \<Rightarrow> rat) \<Rightarrow> bool" where
  "lp_optimal prob x \<longleftrightarrow>
     lp_feasible prob x \<and> (\<forall>y. lp_feasible prob y \<longrightarrow> lp_value prob x \<le> lp_value prob y)"

definition solved_optimally :: "lp_problem \<Rightarrow> (int \<Rightarrow> rat option) \<Rightarrow> bool" where
  "solved_optimally prob varValue \<longleftrightarrow>
     (\<exists>x. lp_optimal prob x \<and> list_all (\<lambda>v. varValue v = Some (x v)) (lp_variables prob))"



section \<open>Vocabulary of the properties\<close>

text \<open>The purchase rows a step appended, the log being append-only.\<close>

definition new_rows :: "sim_state \<Rightarrow> sim_state \<Rightarrow> purchase list" where
  "new_rows st st' = drop (length (purchases st)) (purchases st')"

text \<open>The eligible batches of a distributor in the order they are visited (line 101).\<close>

definition eligible :: "int \<Rightarrow> distributor \<Rightarrow> sim_state \<Rightarrow> (int \<times> batch) list" where
  "eligible d distr st = sort_key fst (valid_batches d distr (batches st))"

text \<open>The value of \<open>remaining_purchase\<close> when the last batch is reached (line 128).\<close>

definition remaining_for_last ::
  "string \<Rightarrow> int \<Rightarrow> distributor \<Rightarrow> rat \<Rightarrow> sim_state \<Rightarrow> rat" where
  "remaining_for_last pn d distr rate st =
     (let valid = valid_batches d distr (batches st)
      in snd (allocate_loop pn d distr rate (total_available valid) (total_purchase distr valid)
                (butlast (sort_key fst valid)) (st, of_int (total_purchase distr valid))))"

text \<open>The quantity the rows allocate to the batch of one day.\<close>

definition allocated :: "purchase list \<Rightarrow> int \<Rightarrow> rat" where
  "allocated rows k = sum_list (map Quantity (filter (\<lambda>r. Batch_Day r = k) rows))"

text \<open>
  First in, first out in the words of the specification, for the eligible batches in
  ascending batch day and the rows of one allocation: the oldest eligible batch, when it has
  stock, is not allocated zero while a younger eligible batch is allocated a nonzero
  quantity.
\<close>

definition fifo_respected :: "(int \<times> batch) list \<Rightarrow> purchase list \<Rightarrow> bool" where
  "fifo_respected elig rows =
     (case elig of
        [] \<Rightarrow> True
      | (k0, b0) # younger \<Rightarrow>
          \<not> (0 < current b0 \<and> allocated rows k0 = 0 \<and>
             list_ex (\<lambda>(k, b). allocated rows k \<noteq> 0) younger))"

text \<open>
  The share lines 104-105 give the oldest of at least two eligible batches: its part of the
  total purchase in proportion to its stock, rounded, capped at its stock and at the total
  purchase.
\<close>

definition oldest_share :: "int \<Rightarrow> distributor \<Rightarrow> sim_state \<Rightarrow> rat" where
  "oldest_share d distr st =
     (let valid = valid_batches d distr (batches st);
          b0 = snd (hd (eligible d distr st))
      in min (min (of_int (py_round (fmul (fdiv (current b0) (total_available valid))
                                       (of_int (total_purchase distr valid)))))
                (current b0))
           (of_int (total_purchase distr valid)))"

text \<open>
  The initial quantity of the batch of day \<open>k\<close> when the days 1 to \<open>n\<close> have begun: the
  planned quantity when it is positive, and zero when no batch is created.
\<close>

definition planned :: "(int \<rightharpoonup> rat) \<Rightarrow> int \<Rightarrow> int \<Rightarrow> rat" where
  "planned plan n k =
     (if 1 \<le> k \<and> k \<le> n
      then (case plan k of None \<Rightarrow> 0 | Some q \<Rightarrow> if 0 < q then q else 0)
      else 0)"

text \<open>What is left of the batch of day \<open>k\<close> in the ledger.\<close>

definition live :: "sim_state \<Rightarrow> int \<Rightarrow> rat" where
  "live st k = (case map_of (batches st) k of None \<Rightarrow> 0 | Some b \<Rightarrow> current b)"

text \<open>The waste recorded for the batch of day \<open>k\<close> (\<open>waste.get(k, 0)\<close>).\<close>

definition wasted :: "sim_state \<Rightarrow> int \<Rightarrow> rat" where
  "wasted st k = (case map_of (waste st) k of None \<Rightarrow> 0 | Some w \<Rightarrow> w)"

text \<open>
  The state on day \<open>d\<close> after the new batch, the expiry and the turns of the first \<open>j\<close>
  distributors.
\<close>

definition day_prefix ::
  "string \<Rightarrow> product \<Rightarrow> distributor list \<Rightarrow> rat \<Rightarrow> sim_state \<Rightarrow> int \<Rightarrow> nat \<Rightarrow> sim_state" where
  "day_prefix pn pd dists rate st d j =
     foldl (process_distributor pn d rate)
       (expire_batches d (log_inventory ''Start'' d
          (add_batch (shelf_life pd) (production_plan pd) d st)))
       (take j (sort_key policy_days dists))"

text \<open>
  The invariant of the ledger after the first \<open>n\<close> days have begun: distinct keys; every
  batch within its bounds, with its planned initial quantity, created on a day up to \<open>n\<close>
  and without recorded waste; rows and waste only for days up to \<open>n\<close>; and the account of
  every day balanced.
\<close>

definition ledger_inv :: "(int \<rightharpoonup> rat) \<Rightarrow> int \<Rightarrow> sim_state \<Rightarrow> bool" where
  "ledger_inv plan n st \<longleftrightarrow>
     distinct (map fst (batches st)) \<and>
     (\<forall>k b. map_of (batches st) k = Some b \<longrightarrow>
        0 \<le> current b \<and> current b \<le> initial b \<and> initial b = planned plan n k \<and>
        k \<le> n \<and> map_of (waste st) k = None) \<and>
     (\<forall>r\<in>set (purchases st). Batch_Day r \<le> n) \<and>
     (\<forall>k w. map_of (waste st) k = Some w \<longrightarrow> k \<le> n) \<and>
     (\<forall>k. planned plan n k = wasted st k + allocated (purchases st) k + live st k)"

section \<open>The scenario of the specification\<close>

definition scenario_distributor :: distributor where
  "scenario_distributor =
     \<lparr>name = ''D1'', policy_days = 2, proportion = 1 / 2, distance_km = 10,
      purchase_days = [True, True, True, True, True], preferred_products = [''P1'']\<rparr>"

definition scenario_product :: product where
  "scenario_product = \<lparr>shelf_life = 3, production_plan = [1 \<mapsto> 100]\<rparr>"

definition scenario :: supply_chain where
  "scenario =
     \<lparr>products = [(''P1'', scenario_product)], distributors = [scenario_distributor],
      transport_rate = fl (1 / 100), sim_days_override = Some 5, all_results = [],
      self_total_transport_cost = 0, self_total_waste_cost = 0\<rparr>"


text \<open>The object the scenario is expected to leave behind.\<close>

definition scenario_result :: supply_chain where
  "scenario_result =
     scenario\<lparr>all_results :=
       [(''P1'',
         \<lparr>result_purchases =
            [\<lparr>Product = ''P1'', Day = 1, Distributor = ''D1'', Batch_Day = 1,
              Quantity = 50, Shelf_Age = 0, Policy = 2, Proportion = 1 / 2,
              Transport_Cost = 5\<rparr>,
             \<lparr>Product = ''P1'', Day = 2, Distributor = ''D1'', Batch_Day = 1,
              Quantity = 25, Shelf_Age = 1, Policy = 2, Proportion = 1 / 2,
              Transport_Cost = 5 / 2\<rparr>],
          result_waste =
            [\<lparr>Waste_Product = ''P1'', Waste_Batch_Day = 1, Initial = 100, Waste = 25,
              Waste_Pct = 25\<rparr>,
             \<lparr>Waste_Product = ''P1'', Waste_Batch_Day = 2, Initial = 0, Waste = 0,
              Waste_Pct = 0\<rparr>,
             \<lparr>Waste_Product = ''P1'', Waste_Batch_Day = 3, Initial = 0, Waste = 0,
              Waste_Pct = 0\<rparr>,
             \<lparr>Waste_Product = ''P1'', Waste_Batch_Day = 4, Initial = 0, Waste = 0,
              Waste_Pct = 0\<rparr>,
             \<lparr>Waste_Product = ''P1'', Waste_Batch_Day = 5, Initial = 0, Waste = 0,
              Waste_Pct = 0\<rparr>],
          result_inventory_log =
            [\<lparr>Log_Day = 1, Phase = ''Start'', Q = [(1, 100)]\<rparr>,
             \<lparr>Log_Day = 1, Phase = ''End'', Q = [(1, 50)]\<rparr>,
             \<lparr>Log_Day = 2, Phase = ''Start'', Q = [(1, 50)]\<rparr>,
             \<lparr>Log_Day = 2, Phase = ''End'', Q = [(1, 25)]\<rparr>,
             \<lparr>Log_Day = 3, Phase = ''Start'', Q = [(1, 25)]\<rparr>,
             \<lparr>Log_Day = 3, Phase = ''End'', Q = []\<rparr>,
             \<lparr>Log_Day = 4, Phase = ''Start'', Q = []\<rparr>,
             \<lparr>Log_Day = 4, Phase = ''End'', Q = []\<rparr>,
             \<lparr>Log_Day = 5, Phase = ''Start'', Q = []\<rparr>,
             \<lparr>Log_Day = 5, Phase = ''End'', Q = []\<rparr>]\<rparr>)],
       self_total_transport_cost := 15 / 2\<rparr>"

text \<open>The state of the scenario on day 1 when the distributor's turn begins.\<close>

definition scenario_day1 :: sim_state where
  "scenario_day1 =
     \<lparr>batches = [(1, \<lparr>initial = 100, current = 100, expiry = 3\<rparr>)], purchases = [],
      inventory_log = [\<lparr>Log_Day = 1, Phase = ''Start'', Q = [(1, 100)]\<rparr>], waste = [],
      total_transport_cost = 0\<rparr>"

section \<open>Configurations with several batches\<close>

text \<open>
  A configuration with four unit batches: one unit is produced on each of the days 1 to 4,
  the shelf life is 5, and the only distributor (window 4, proportion 0.5) purchases on
  day 4 alone.
\<close>

definition drift_distributor :: distributor where
  "drift_distributor =
     \<lparr>name = ''D1'', policy_days = 4, proportion = 1 / 2, distance_km = 10,
      purchase_days = [False, False, False, True], preferred_products = [''P1'']\<rparr>"

definition drift_product :: product where
  "drift_product = \<lparr>shelf_life = 5, production_plan = [1 \<mapsto> 1, 2 \<mapsto> 1, 3 \<mapsto> 1, 4 \<mapsto> 1]\<rparr>"

text \<open>The state on day 4 when the distributor's turn begins.\<close>

definition drift_day4 :: sim_state where
  "drift_day4 =
     expire_batches 4 (log_inventory ''Start'' 4
       (add_batch (shelf_life drift_product) (production_plan drift_product) 4
          (simulate_days ''P1'' drift_product [drift_distributor] (fl (1 / 100)) 3 0)))"

text \<open>
  A configuration with two unit batches: one unit is produced on each of the days 1 and 2,
  the shelf life is 3, and the only distributor (window 2, proportion 0.5) purchases on both
  days.
\<close>

definition fifo_distributor :: distributor where
  "fifo_distributor =
     \<lparr>name = ''D1'', policy_days = 2, proportion = 1 / 2, distance_km = 10,
      purchase_days = [True, True], preferred_products = [''P1'']\<rparr>"

definition fifo_product :: product where
  "fifo_product = \<lparr>shelf_life = 3, production_plan = [1 \<mapsto> 1, 2 \<mapsto> 1]\<rparr>"

text \<open>The state on day 2 when the distributor's turn begins.\<close>

definition fifo_day2 :: sim_state where
  "fifo_day2 =
     expire_batches 2 (log_inventory ''Start'' 2
       (add_batch (shelf_life fifo_product) (production_plan fifo_product) 2
          (simulate_days ''P1'' fifo_product [fifo_distributor] (fl (1 / 100)) 1 0)))"

section \<open>Rounding\<close>

subsection \<open>Rounding to an integer\<close>

lemma py_round_of_int: "py_round (of_int n) = n"
  by (simp add: py_round_def)

lemma py_round_bounds: "of_int (py_round x) \<le> x + 1 / 2 \<and> x - 1 / 2 \<le> of_int (py_round x)"
proof -
  have f: "of_int \<lfloor>x\<rfloor> \<le> x" "x < of_int \<lfloor>x\<rfloor> + 1" by linarith+
  consider "py_round x = \<lfloor>x\<rfloor>" "x - of_int \<lfloor>x\<rfloor> \<le> 1 / 2"
    | "py_round x = \<lfloor>x\<rfloor> + 1" "1 / 2 \<le> x - of_int \<lfloor>x\<rfloor>"
    by (cases "x - of_int \<lfloor>x\<rfloor> < 1 / 2"; cases "1 / 2 < x - of_int \<lfloor>x\<rfloor>";
        cases "even \<lfloor>x\<rfloor>") (simp_all add: py_round_def Let_def)
  then show ?thesis
  proof cases
    case 1
    show ?thesis unfolding 1(1) using f 1(2) by linarith
  next
    case 2
    have "(of_int (\<lfloor>x\<rfloor> + 1) :: rat) = of_int \<lfloor>x\<rfloor> + 1" by simp
    then show ?thesis unfolding 2(1) using f 2(2) by linarith
  qed
qed

lemma py_round_mono:
  assumes "x \<le> y"
  shows "py_round x \<le> py_round y"
proof (rule ccontr)
  assume "\<not> py_round x \<le> py_round y"
  then have lt: "py_round y + 1 \<le> py_round x" by simp
  then have "(of_int (py_round y) :: rat) + 1 \<le> of_int (py_round x)"
    by (metis of_int_1 of_int_add of_int_le_iff)
  with py_round_bounds [of x] py_round_bounds [of y] assms
  have "x = y" by linarith
  with lt show False by simp
qed

lemma py_round_nonneg: "0 \<le> x \<Longrightarrow> 0 \<le> py_round x"
  using py_round_mono [of 0 x] by (simp add: py_round_def)

lemma py_round_nonpos: "x \<le> 0 \<Longrightarrow> py_round x \<le> 0"
  using py_round_mono [of x 0] by (simp add: py_round_def)

lemma py_round_le_int: "x \<le> of_int n \<Longrightarrow> py_round x \<le> n"
  using py_round_mono [of x "of_int n"] by (simp add: py_round_of_int)

lemma py_round_ge_int: "of_int n \<le> x \<Longrightarrow> n \<le> py_round x"
  using py_round_mono [of "of_int n" x] by (simp add: py_round_of_int)

subsection \<open>The binary exponent\<close>

lemma bitlen_bounds:
  "0 < n \<Longrightarrow> 2 ^ nat (bitlen n - 1) \<le> n \<and> n < 2 ^ nat (bitlen n) \<and> 1 \<le> bitlen n"
proof (induction n rule: bitlen.induct)
  case (1 n)
  show ?case
  proof (cases "n = 1")
    case True
    have "bitlen 1 = 1" by (simp add: bitlen.simps [of 1] bitlen.simps [of 0])
    then show ?thesis using True by simp
  next
    case False
    with "1.prems" have half: "0 < n div 2" by simp
    from "1.IH" [OF "1.prems" half]
    have ih: "2 ^ nat (bitlen (n div 2) - 1) \<le> n div 2" "n div 2 < 2 ^ nat (bitlen (n div 2))"
      "1 \<le> bitlen (n div 2)"
      by simp_all
    have b: "bitlen n = 1 + bitlen (n div 2)"
      using "1.prems" by (simp add: bitlen.simps [of n])
    have e1: "nat (bitlen n - 1) = Suc (nat (bitlen (n div 2) - 1))"
      using ih(3) b by simp
    have e2: "nat (bitlen n) = Suc (nat (bitlen (n div 2)))"
      using ih(3) b by simp
    have "2 * 2 ^ nat (bitlen (n div 2) - 1) \<le> 2 * (n div 2)" using ih(1) by simp
    also have "\<dots> \<le> n" by simp
    finally have lo: "2 ^ nat (bitlen n - 1) \<le> n" by (simp add: e1)
    have "n div 2 + 1 \<le> 2 ^ nat (bitlen (n div 2))" using ih(2) by simp
    then have "2 * (n div 2) + 2 \<le> 2 * 2 ^ nat (bitlen (n div 2))" by simp
    moreover have "n < 2 * (n div 2) + 2" by presburger
    ultimately have hi: "n < 2 ^ nat (bitlen n)" by (simp add: e2)
    show ?thesis using lo hi b ih(3) by simp
  qed
qed

lemma bitlen_powi:
  assumes "0 < n"
  shows "2 powi (bitlen n - 1) \<le> (of_int n :: rat)" and "(of_int n :: rat) < 2 powi (bitlen n)"
proof -
  note b = bitlen_bounds [OF assms]
  have "(of_int (2 ^ nat (bitlen n - 1)) :: rat) \<le> of_int n"
    using b by (simp only: of_int_le_iff)
  then show "2 powi (bitlen n - 1) \<le> (of_int n :: rat)"
    using b by (simp add: power_int_def)
  have "(of_int n :: rat) < of_int (2 ^ nat (bitlen n))"
    using b by (simp only: of_int_less_iff)
  then show "(of_int n :: rat) < 2 powi (bitlen n)"
    using b by (simp add: power_int_def)
qed

lemma ilog2_bounds:
  assumes "0 < x"
  shows "2 powi (ilog2 x) \<le> x \<and> x < 2 powi (ilog2 x + 1)"
proof -
  obtain p q where pq: "quotient_of x = (p, q)" by (cases "quotient_of x")
  have q: "0 < q" using pq by (rule quotient_of_denom_pos)
  have x: "x = of_int p / of_int q" using pq by (rule quotient_of_div)
  have p: "0 < p" using assms q by (simp add: x zero_less_divide_iff)
  define d where "d = bitlen p - bitlen q"
  note bp = bitlen_powi [OF p] and bq = bitlen_powi [OF q]
  have qpos: "(0 :: rat) < of_int q" using q by simp
  have "x < 2 powi (bitlen p) / 2 powi (bitlen q - 1)"
  proof -
    have "x < 2 powi (bitlen p) / of_int q"
      unfolding x using bp(2) qpos by (simp add: divide_strict_right_mono)
    also have "\<dots> \<le> 2 powi (bitlen p) / 2 powi (bitlen q - 1)"
    proof (rule divide_left_mono [OF bq(1)])
      show "(0 :: rat) \<le> 2 powi bitlen p" by simp
      show "(0 :: rat) < of_int q * 2 powi (bitlen q - 1)"
        using qpos by (intro mult_pos_pos) simp_all
    qed
    finally show ?thesis .
  qed
  also have "\<dots> = 2 powi (d + 1)"
  proof -
    have e: "d + 1 = bitlen p - (bitlen q - 1)" by (simp add: d_def)
    show ?thesis unfolding e
      by (rule power_int_diff [symmetric]) simp
  qed
  finally have hi: "x < 2 powi (d + 1)" .
  have "2 powi (d - 1) = 2 powi (bitlen p - 1) / (2 powi (bitlen q) :: rat)"
  proof -
    have e: "d - 1 = bitlen p - 1 - bitlen q" by (simp add: d_def)
    show ?thesis unfolding e
      by (rule power_int_diff) simp
  qed
  also have "\<dots> \<le> of_int p / 2 powi (bitlen q)"
    using bp(1) by (simp add: divide_right_mono)
  also have "\<dots> \<le> x"
    unfolding x
  proof (rule divide_left_mono)
    show "(of_int q :: rat) \<le> 2 powi bitlen q" using bq(2) by simp
    show "(0 :: rat) \<le> of_int p" using p by simp
    show "(0 :: rat) < 2 powi bitlen q * of_int q"
      using qpos by (intro mult_pos_pos) simp_all
  qed
  finally have lo: "2 powi (d - 1) \<le> x" .
  have e: "ilog2 x = (if 2 powi d \<le> x then d else d - 1)"
    by (simp add: ilog2_def pq d_def Let_def)
  show ?thesis
  proof (cases "(2::rat) powi d \<le> x")
    case True
    then show ?thesis using hi by (simp add: e)
  next
    case False
    then show ?thesis using lo by (simp add: e)
  qed
qed


lemma ilog2_unique:
  assumes "0 < x" and "2 powi e \<le> x" and "x < 2 powi (e + 1)"
  shows "ilog2 x = e"
proof (rule ccontr)
  assume ne: "ilog2 x \<noteq> e"
  note b = ilog2_bounds [OF assms(1)]
  show False
  proof (cases "ilog2 x < e")
    case True
    then have "(2 :: rat) powi (ilog2 x + 1) \<le> 2 powi e"
      by (intro power_int_increasing) simp_all
    with b assms(2) show False by linarith
  next
    case False
    with ne have "(2 :: rat) powi (e + 1) \<le> 2 powi (ilog2 x)"
      by (intro power_int_increasing) simp_all
    with b assms(3) show False by linarith
  qed
qed

lemma ilog2_mono:
  assumes "0 < x" and "x \<le> y"
  shows "ilog2 x \<le> ilog2 y"
proof (rule ccontr)
  assume "\<not> ilog2 x \<le> ilog2 y"
  then have "(2 :: rat) powi (ilog2 y + 1) \<le> 2 powi (ilog2 x)"
    by (intro power_int_increasing) simp_all
  moreover have "0 < y" using assms by simp
  ultimately show False
    using ilog2_bounds [OF assms(1)] ilog2_bounds [OF \<open>0 < y\<close>] assms(2) by linarith
qed

subsection \<open>Rounding to a double\<close>

lemma fl_0: "fl 0 = 0"
  by (simp add: fl_def)

lemma fl_minus: "fl (- x) = - fl x"
  by (simp add: fl_def Let_def)

lemma fl_pos_eq:
  "0 < x \<Longrightarrow>
     fl x = of_int (py_round (x / 2 powi (ilog2 x - 52))) * 2 powi (ilog2 x - 52)"
  by (simp add: fl_def Let_def)

lemma ulp_pos: "(0 :: rat) < 2 powi e"
  by simp

lemma ulp_times: "(2 :: rat) ^ 52 * 2 powi (e - 52) = 2 powi e"
proof -
  have "(2 :: rat) powi (52 + (e - 52)) = 2 powi 52 * 2 powi (e - 52)"
    by (rule power_int_add) simp
  then show ?thesis by simp
qed

lemma ulp_times': "(2 :: rat) ^ 53 * 2 powi (e - 52) = 2 powi (e + 1)"
proof -
  have "(2 :: rat) powi (53 + (e - 52)) = 2 powi 53 * 2 powi (e - 52)"
    by (rule power_int_add) simp
  moreover have "53 + (e - 52) = e + 1" by simp
  ultimately show ?thesis by simp
qed

lemma fl_bounds:
  assumes "0 < x"
  shows "2 powi (ilog2 x) \<le> fl x \<and> fl x \<le> 2 powi (ilog2 x + 1)"
proof -
  define u :: rat where "u = 2 powi (ilog2 x - 52)"
  define m where "m = py_round (x / u)"
  have u: "0 < u" by (simp add: u_def)
  note b = ilog2_bounds [OF assms]
  have lo: "2 ^ 52 * u \<le> x"
    unfolding u_def ulp_times using b by blast
  have hi: "x \<le> 2 ^ 53 * u"
    unfolding u_def ulp_times' using b by (simp add: less_imp_le)
  have "of_int (2 ^ 52) \<le> x / u" using lo u by (simp add: pos_le_divide_eq)
  then have m1: "2 ^ 52 \<le> m" unfolding m_def by (rule py_round_ge_int)
  have "x / u \<le> of_int (2 ^ 53)" using hi u by (simp add: pos_divide_le_eq)
  then have m2: "m \<le> 2 ^ 53" unfolding m_def by (rule py_round_le_int)
  have fl: "fl x = of_int m * u"
    using assms by (simp add: fl_pos_eq m_def u_def)
  have "(of_int (2 ^ 52) :: rat) \<le> of_int m" using m1 by (simp only: of_int_le_iff)
  then have A: "2 ^ 52 * u \<le> of_int m * u" using u by (simp add: mult_right_mono)
  have "(of_int m :: rat) \<le> of_int (2 ^ 53)" using m2 by (simp only: of_int_le_iff)
  then have B: "of_int m * u \<le> 2 ^ 53 * u" using u by (simp add: mult_right_mono)
  show ?thesis
    using A [unfolded u_def ulp_times] B [unfolded u_def ulp_times']
    unfolding fl u_def by blast
qed

lemma fl_pos: "0 < x \<Longrightarrow> 0 < fl x"
  using fl_bounds [of x] ulp_pos [of "ilog2 x"] by linarith

lemma fl_nonneg: "0 \<le> x \<Longrightarrow> 0 \<le> fl x"
  using fl_pos [of x] by (cases "x = 0") (simp_all add: fl_0 less_imp_le)

lemma fl_nonpos: "x \<le> 0 \<Longrightarrow> fl x \<le> 0"
  using fl_nonneg [of "- x"] by (simp add: fl_minus)

lemma fl_mono_pos:
  assumes "0 < x" and "x \<le> y"
  shows "fl x \<le> fl y"
proof -
  have y: "0 < y" using assms by simp
  show ?thesis
  proof (cases "ilog2 x = ilog2 y")
    case True
    define u :: rat where "u = 2 powi (ilog2 x - 52)"
    have u: "0 < u" by (simp add: u_def)
    have "x / u \<le> y / u" using assms(2) u by (simp add: divide_right_mono)
    then have "py_round (x / u) \<le> py_round (y / u)" by (rule py_round_mono)
    then have "(of_int (py_round (x / u)) :: rat) \<le> of_int (py_round (y / u))"
      by (simp only: of_int_le_iff)
    then have "of_int (py_round (x / u)) * u \<le> of_int (py_round (y / u)) * u"
      using u by (simp add: mult_right_mono)
    then show ?thesis
      using assms(1) y by (simp add: fl_pos_eq True [symmetric] u_def)
  next
    case False
    with ilog2_mono [OF assms] have "ilog2 x + 1 \<le> ilog2 y" by simp
    then have "(2 :: rat) powi (ilog2 x + 1) \<le> 2 powi (ilog2 y)"
      by (intro power_int_increasing) simp_all
    with fl_bounds [OF assms(1)] fl_bounds [OF y] show ?thesis by linarith
  qed
qed

lemma fl_mono:
  assumes "x \<le> y"
  shows "fl x \<le> fl y"
proof -
  consider "0 < x" | "x \<le> 0" "0 \<le> y" | "y < 0" by linarith
  then show ?thesis
  proof cases
    case 1
    then show ?thesis using assms by (rule fl_mono_pos)
  next
    case 2
    then show ?thesis using fl_nonpos [of x] fl_nonneg [of y] by linarith
  next
    case 3
    then have "fl (- y) \<le> fl (- x)" using assms by (intro fl_mono_pos) simp_all
    then show ?thesis by (simp add: fl_minus)
  qed
qed

text \<open>Integers stay integers, and those up to \<open>2^53\<close> are doubles.\<close>

lemma fl_exact_pos:
  assumes "0 < x" and "x / 2 powi (ilog2 x - 52) \<in> \<int>"
  shows "fl x = x"
proof -
  from assms(2) obtain m where m: "x / 2 powi (ilog2 x - 52) = of_int m"
    by (auto elim: Ints_cases)
  have "fl x = of_int m * 2 powi (ilog2 x - 52)"
    using assms(1) by (simp add: fl_pos_eq m py_round_of_int)
  also have "\<dots> = x" using m [symmetric] by simp
  finally show ?thesis .
qed

lemma fl_int_pos:
  assumes "0 < n"
  shows "fl (of_int n) \<in> \<int> \<and> (n < 2 ^ 53 \<longrightarrow> fl (of_int n) = of_int n)"
proof (cases "ilog2 (of_int n) \<le> 52")
  case True
  define k where "k = nat (52 - ilog2 (of_int n))"
  have x: "(0 :: rat) < of_int n" using assms by simp
  have "(2 :: rat) powi (ilog2 (of_int n) - 52) * 2 powi (52 - ilog2 (of_int n)) = 2 powi 0"
    by (subst power_int_add [symmetric]) simp_all
  moreover have "(2 :: rat) powi (52 - ilog2 (of_int n)) = 2 ^ k"
    using True by (simp add: power_int_def k_def)
  ultimately have "(2 :: rat) powi (ilog2 (of_int n) - 52) * 2 ^ k = 1" by simp
  then have "of_int n / 2 powi (ilog2 (of_int n) - 52) = (of_int n * 2 ^ k :: rat)"
    by (simp add: field_simps)
  also have "\<dots> = of_int (n * 2 ^ k)" by simp
  finally have "of_int n / 2 powi (ilog2 (of_int n) - 52) \<in> (\<int> :: rat set)"
    by (simp only: Ints_of_int)
  with x have "fl (of_int n) = of_int n" by (rule fl_exact_pos)
  then show ?thesis by simp
next
  case False
  define k where "k = nat (ilog2 (of_int n) - 52)"
  have x: "(0 :: rat) < of_int n" using assms by simp
  have u: "(2 :: rat) powi (ilog2 (of_int n) - 52) = of_int (2 ^ k)"
    using False by (simp add: power_int_def k_def)
  have "fl (of_int n) \<in> \<int>"
    unfolding fl_pos_eq [OF x] u by (simp only: Ints_of_int Ints_mult)
  moreover have "\<not> n < 2 ^ 53"
  proof
    assume "n < 2 ^ 53"
    then have "(of_int n :: rat) < of_int (2 ^ 53)" by (simp only: of_int_less_iff)
    then have "(of_int n :: rat) < 2 powi 53" by simp
    moreover have "(2 :: rat) powi 53 \<le> 2 powi (ilog2 (of_int n))"
      using False by (intro power_int_increasing) simp_all
    ultimately show False using ilog2_bounds [OF x] by linarith
  qed
  ultimately show ?thesis by simp
qed

lemma fl_2_53: "fl 9007199254740992 = 9007199254740992"
  by code_simp

lemma fl_Ints:
  assumes "x \<in> \<int>"
  shows "fl x \<in> \<int>"
proof -
  from assms obtain n where n: "x = of_int n" by (auto elim: Ints_cases)
  consider "0 < n" | "n = 0" | "0 < - n" by linarith
  then show ?thesis
  proof cases
    case 1
    then show ?thesis using fl_int_pos [of n] by (simp add: n)
  next
    case 2
    then show ?thesis by (simp add: n fl_0)
  next
    case 3
    then have "fl (of_int (- n)) \<in> \<int>" using fl_int_pos [of "- n"] by blast
    then show ?thesis by (simp add: n fl_minus)
  qed
qed

lemma fl_of_int:
  assumes "0 \<le> n" and "n \<le> 2 ^ 53"
  shows "fl (of_int n) = of_int n"
proof -
  consider "n = 0" | "0 < n" "n < 2 ^ 53" | "n = 2 ^ 53" using assms by linarith
  then show ?thesis
  proof cases
    case 1
    then show ?thesis by (simp add: fl_0)
  next
    case 2
    then show ?thesis using fl_int_pos [of n] by simp
  next
    case 3
    then show ?thesis using fl_2_53 by simp
  qed
qed

lemma fl_exact:
  assumes "x \<in> \<int>" and "0 \<le> x" and "x \<le> 2 ^ 53"
  shows "fl x = x"
proof -
  from assms(1) obtain n where n: "x = of_int n" by (auto elim: Ints_cases)
  have "0 \<le> n" using assms(2) by (simp add: n)
  moreover have "(of_int n :: rat) \<le> of_int (2 ^ 53)" using assms(3) by (simp add: n)
  then have "n \<le> 2 ^ 53" by (simp only: of_int_le_iff)
  ultimately show ?thesis unfolding n by (rule fl_of_int)
qed

lemma fl_1: "fl 1 = 1"
  using fl_of_int [of 1] by simp

subsection \<open>Sums and proportions\<close>

lemma fsum_exact_acc:
  assumes "\<forall>x\<in>set xs. x \<in> \<int> \<and> 0 \<le> x" and "acc \<in> \<int>" and "0 \<le> acc"
    and "acc + sum_list xs \<le> 2 ^ 53"
  shows "foldl fadd acc xs = acc + sum_list xs"
  using assms
proof (induction xs arbitrary: acc)
  case Nil
  then show ?case by simp
next
  case (Cons x xs)
  have x: "x \<in> \<int>" "0 \<le> x" using Cons.prems(1) by simp_all
  have rest: "0 \<le> sum_list xs" using Cons.prems(1) by (intro sum_list_nonneg) simp
  have "fadd acc x = acc + x"
    unfolding fadd_def using Cons.prems x rest by (intro fl_exact) simp_all
  moreover have "foldl fadd (acc + x) xs = acc + x + sum_list xs"
    using Cons.prems x by (intro Cons.IH) (simp_all add: add.assoc)
  ultimately show ?case by (simp add: add.assoc)
qed

lemma fsum_exact:
  assumes "\<forall>x\<in>set xs. x \<in> \<int> \<and> 0 \<le> x" and "sum_list xs \<le> 2 ^ 53"
  shows "fsum xs = sum_list xs"
  unfolding fsum_def using fsum_exact_acc [OF assms(1), of 0] assms(2) by simp

lemma fsum_pos_acc:
  assumes "\<forall>x\<in>set xs. 0 < x"
  shows "(0 < acc \<longrightarrow> 0 < foldl fadd acc xs) \<and> (0 \<le> acc \<and> xs \<noteq> [] \<longrightarrow> 0 < foldl fadd acc xs)"
  using assms
proof (induction xs arbitrary: acc)
  case Nil
  then show ?case by simp
next
  case (Cons x xs)
  have x: "0 < x" using Cons.prems by simp
  have step: "0 < fadd acc x" if "0 \<le> acc"
    unfolding fadd_def using that x by (intro fl_pos) simp
  have ih: "0 < a \<longrightarrow> 0 < foldl fadd a xs" for a
    using Cons.IH [of a] Cons.prems by simp
  show ?case using step ih [of "fadd acc x"] by simp
qed

lemma fsum_pos: "\<forall>x\<in>set xs. 0 < x \<Longrightarrow> xs \<noteq> [] \<Longrightarrow> 0 < fsum xs"
  unfolding fsum_def using fsum_pos_acc [of xs 0] by simp

lemma py_round2_nonneg: "0 \<le> x \<Longrightarrow> 0 \<le> py_round2 x"
  unfolding py_round2_def by (intro fl_nonneg divide_nonneg_nonneg) (simp_all add: py_round_nonneg)

lemma py_round2_le_1:
  assumes "x \<le> 1"
  shows "py_round2 x \<le> 1"
proof -
  have "x * 100 \<le> of_int 100" using assms by simp
  then have "py_round (x * 100) \<le> 100" by (rule py_round_le_int)
  then have "(of_int (py_round (x * 100)) :: rat) \<le> of_int 100" by (simp only: of_int_le_iff)
  then have "(of_int (py_round (x * 100)) :: rat) / 100 \<le> 1" by simp
  then have "fl (of_int (py_round (x * 100)) / 100) \<le> fl 1" by (rule fl_mono)
  then show ?thesis by (simp add: py_round2_def fl_1)
qed

section \<open>Evaluating a run\<close>

lemma scenario_days:
  "simulate_days ''P1'' scenario_product [scenario_distributor] (fl (1 / 100)) 5 0 =
     \<lparr>batches = [],
      purchases = result_purchases (snd (hd (all_results scenario_result))),
      inventory_log = result_inventory_log (snd (hd (all_results scenario_result))),
      waste = [(1, 25)],
      total_transport_cost = 15 / 2\<rparr>"
  by code_simp

lemma scenario_waste:
  "waste_data ''P1'' (production_plan scenario_product) [(1, 25)] 5 =
     result_waste (snd (hd (all_results scenario_result)))"
  by code_simp

lemma run_scenario: "run_simulation scenario = Inr scenario_result"
proof -
  have "simulate_product 5 scenario (''P1'', scenario_product) = scenario_result"
    by (simp add: simulate_product_def Let_def scenario_def scenario_days scenario_waste)
      (simp add: scenario_result_def scenario_def)
  then show ?thesis
    by (simp add: run_simulation_def Let_def scenario_def)
qed

text \<open>
  C5. In the scenario of the specification (shelf life 3, plan {1: 100}, one distributor
  with window 2, proportion 0.5, open every day, distance 10, rate 0.01, horizon 5) the run
  ends without an error; the purchases are 50 on day 1 and 25 on day 2, both from the batch
  of day 1, which is left with 50 and then 25; from day 3 on the ledger is empty and the 25
  are the waste of that batch; 75 are purchased in total and the waste percentage is 25.
\<close>

theorem scenario_outcome:
  "run_simulation scenario = Inr scenario_result \<and>
   map (\<lambda>r. (Day r, Batch_Day r, Quantity r))
     (result_purchases (snd (hd (all_results scenario_result)))) = [(1, 1, 50), (2, 1, 25)] \<and>
   sum_list (map Quantity (result_purchases (snd (hd (all_results scenario_result))))) = 75 \<and>
   map (\<lambda>e. (Log_Day e, Phase e, Q e))
     (take 6 (result_inventory_log (snd (hd (all_results scenario_result))))) =
     [(1, ''Start'', [(1, 100)]), (1, ''End'', [(1, 50)]),
      (2, ''Start'', [(1, 50)]), (2, ''End'', [(1, 25)]),
      (3, ''Start'', [(1, 25)]), (3, ''End'', [])] \<and>
   hd (result_waste (snd (hd (all_results scenario_result)))) =
     \<lparr>Waste_Product = ''P1'', Waste_Batch_Day = 1, Initial = 100, Waste = 25, Waste_Pct = 25\<rparr>"
  by (simp add: run_scenario) (simp add: scenario_result_def)

section \<open>The optimizer\<close>

lemma or_zero_None: "or_zero None = 0"
  by (simp add: or_zero_def)

lemma py_int_0: "py_int 0 = 0"
  by (simp add: py_int_def)

text \<open>
  C9. \<open>optimize_production\<close> has no failing branch of its own: whatever the solver leaves in
  the variables, the recommendation has one entry for every day of the horizon, and when the
  solver leaves no value in any variable (no solution) every entry is zero.
\<close>

theorem optimize_no_solution:
  "map fst (optimize_production solve self sim_days sl) = [1..sim_days] \<and>
   ((\<forall>day\<in>set [1..sim_days]. solve (build_problem self sim_days) day = None) \<longrightarrow>
      optimize_production solve self sim_days sl = map (\<lambda>day. (day, 0)) [1..sim_days])"
  by (simp add: optimize_production_def Let_def comp_def or_zero_None py_int_0)

theorem optimize_no_solution_witness:
  "optimize_production (\<lambda>prob v. None) scenario 3 3 = [(1, 0), (2, 0), (3, 0)]"
  using optimize_no_solution [of "\<lambda>prob v. None" scenario 3 3]
  by (simp add: upto.simps)

subsection \<open>The minimum of the objective\<close>

lemma term_vars:
  "(v, c) \<in> set (lp_objective (build_problem self n)) \<Longrightarrow> v \<in> set [1..n]"
  by (auto simp: build_problem_def day_terms_def transport_terms_def Let_def)

lemma term_nonneg:
  assumes "\<forall>distr\<in>set (distributors self). 0 \<le> proportion distr"
    and "(v, c) \<in> set (lp_objective (build_problem self n))"
  shows "0 \<le> c"
  using assms
  by (auto simp: build_problem_def day_terms_def transport_terms_def Let_def
      waste_cost_per_unit_def opt_transport_rate_def)

lemma waste_term:
  "day \<in> set [1..n] \<Longrightarrow> (day, 1 / 10) \<in> set (lp_objective (build_problem self n))"
  by (auto simp: build_problem_def day_terms_def Let_def waste_cost_per_unit_def)

lemma feasible_zero: "lp_feasible prob (\<lambda>v. 0)"
  by (simp add: lp_feasible_def list_all_iff)

lemma value_zero: "lp_value prob (\<lambda>v. 0) = 0"
  by (simp add: lp_value_def split_def)

lemma feasible_vars:
  "lp_feasible (build_problem self n) y \<Longrightarrow> v \<in> set [1..n] \<Longrightarrow> 0 \<le> y v"
  by (auto simp: lp_feasible_def list_all_iff build_problem_def Let_def)

lemma product_nonneg:
  assumes "\<forall>distr\<in>set (distributors self). 0 \<le> proportion distr"
    and "lp_feasible (build_problem self n) y"
    and "t \<in> set (map (\<lambda>(v, c). c * y v) (lp_objective (build_problem self n)))"
  shows "0 \<le> t"
proof -
  obtain v c where vc: "(v, c) \<in> set (lp_objective (build_problem self n))"
    and t: "t = c * y v"
    using assms(3) by auto
  have "0 \<le> c" using assms(1) vc by (rule term_nonneg)
  moreover have "0 \<le> y v" using assms(2) term_vars [OF vc] by (rule feasible_vars)
  ultimately show ?thesis using t by simp
qed

lemma value_nonneg:
  assumes "\<forall>distr\<in>set (distributors self). 0 \<le> proportion distr"
    and "lp_feasible (build_problem self n) y"
  shows "0 \<le> lp_value (build_problem self n) y"
  unfolding lp_value_def using product_nonneg [OF assms] by (rule sum_list_nonneg)

lemma zero_optimal:
  assumes "\<forall>distr\<in>set (distributors self). 0 \<le> proportion distr"
  shows "lp_optimal (build_problem self n) (\<lambda>v. 0)"
  using assms by (simp add: lp_optimal_def feasible_zero value_zero value_nonneg)

lemma optimal_is_zero:
  assumes props: "\<forall>distr\<in>set (distributors self). 0 \<le> proportion distr"
    and opt: "lp_optimal (build_problem self n) x"
    and day: "day \<in> set [1..n]"
  shows "x day = 0"
proof -
  let ?prob = "build_problem self n"
  let ?ts = "map (\<lambda>(v, c). c * x v) (lp_objective ?prob)"
  have feas: "lp_feasible ?prob x" using opt by (simp add: lp_optimal_def)
  have "lp_value ?prob x \<le> lp_value ?prob (\<lambda>v. 0)"
    using opt feasible_zero by (simp add: lp_optimal_def)
  then have le: "lp_value ?prob x \<le> 0" by (simp add: value_zero)
  have "0 \<le> lp_value ?prob x" using props feas by (rule value_nonneg)
  with le have "sum_list ?ts = 0" by (simp add: lp_value_def)
  then have all0: "\<forall>t\<in>set ?ts. t = 0"
    using sum_list_nonneg_eq_0_iff [of ?ts] product_nonneg [OF props feas] by blast
  have "(1 / 10) * x day \<in> set ?ts"
    using waste_term [OF day, of self] by force
  then have "(1 / 10) * x day = 0" using all0 by blast
  then show ?thesis by simp
qed

lemma member_le_sum_list_nonneg:
  fixes xs :: "rat list"
  shows "\<forall>y\<in>set xs. 0 \<le> y \<Longrightarrow> x \<in> set xs \<Longrightarrow> x \<le> sum_list xs"
proof (induction xs)
  case Nil
  then show ?case by simp
next
  case (Cons a xs)
  have "0 \<le> sum_list xs" using Cons.prems(1) by (simp add: sum_list_nonneg)
  then show ?case using Cons by auto
qed

lemma coefficient_ge:
  assumes "\<forall>distr\<in>set (distributors self). 0 \<le> proportion distr"
    and "day \<in> set [1..n]"
  shows "waste_cost_per_unit * (1 / 10) \<le> lp_coefficient (build_problem self n) day"
proof -
  let ?cs = "map snd (filter (\<lambda>(w, c). w = day) (lp_objective (build_problem self n)))"
  have "\<forall>c\<in>set ?cs. 0 \<le> c"
    using term_nonneg [OF assms(1)] by auto
  moreover have "1 / 10 \<in> set ?cs"
    using waste_term [OF assms(2), of self] by force
  ultimately have "1 / 10 \<le> sum_list ?cs" by (rule member_le_sum_list_nonneg)
  then show ?thesis by (simp add: lp_coefficient_def waste_cost_per_unit_def)
qed

lemma optimal_values_zero:
  assumes "\<forall>distr\<in>set (distributors self). 0 \<le> proportion distr"
    and "solved_optimally (build_problem self sim_days) (solve (build_problem self sim_days))"
  shows "optimize_production solve self sim_days sl = map (\<lambda>day. (day, 0)) [1..sim_days]"
proof -
  let ?prob = "build_problem self sim_days"
  obtain x where opt: "lp_optimal ?prob x"
    and vals: "list_all (\<lambda>v. solve ?prob v = Some (x v)) (lp_variables ?prob)"
    using assms(2) by (auto simp: solved_optimally_def)
  have "solve ?prob day = Some 0" if d: "day \<in> set [1..sim_days]" for day
  proof -
    have "solve ?prob day = Some (x day)"
      using vals d by (simp add: list_all_iff build_problem_def Let_def)
    then show ?thesis
      using optimal_is_zero [OF assms(1) opt d] by simp
  qed
  then show ?thesis
    by (simp add: optimize_production_def Let_def or_zero_def py_int_def)
qed

text \<open>
  C2. For every configuration whose proportions are not negative, every horizon and every
  shelf life: each day's coefficient in the objective is at least
  \<open>waste_cost_per_unit * 0.1\<close>, the all-zero plan is a minimiser among the plans that are
  integral, non-negative and zero on closure days, and a solver that returns a minimiser
  makes \<open>optimize_production\<close> return zero for every day of the horizon.
\<close>

theorem optimize_all_zero:
  assumes "\<forall>distr\<in>set (distributors self). 0 \<le> proportion distr"
  shows "(\<forall>day\<in>set [1..sim_days].
            waste_cost_per_unit * (1 / 10) \<le> lp_coefficient (build_problem self sim_days) day) \<and>
         lp_optimal (build_problem self sim_days) (\<lambda>v. 0) \<and>
         (solved_optimally (build_problem self sim_days) (solve (build_problem self sim_days)) \<longrightarrow>
            optimize_production solve self sim_days sl = map (\<lambda>day. (day, 0)) [1..sim_days])"
proof (intro conjI ballI impI)
  fix day assume "day \<in> set [1..sim_days]"
  with assms
  show "waste_cost_per_unit * (1 / 10) \<le> lp_coefficient (build_problem self sim_days) day"
    by (rule coefficient_ge)
next
  show "lp_optimal (build_problem self sim_days) (\<lambda>v. 0)"
    using assms by (rule zero_optimal)
next
  assume "solved_optimally (build_problem self sim_days) (solve (build_problem self sim_days))"
  with assms
  show "optimize_production solve self sim_days sl = map (\<lambda>day. (day, 0)) [1..sim_days]"
    by (rule optimal_values_zero)
qed

theorem optimize_all_zero_witness:
  "optimize_production (\<lambda>prob v. Some 0) scenario 3 3 = [(1, 0), (2, 0), (3, 0)]"
proof -
  have props: "\<forall>distr\<in>set (distributors scenario). 0 \<le> proportion distr"
    by (simp add: scenario_def scenario_distributor_def)
  note inst = optimize_all_zero [OF props, of 3 "\<lambda>prob v. Some 0" 3]
  have "lp_optimal (build_problem scenario 3) (\<lambda>v. 0)" using inst by (elim conjE)
  then have "solved_optimally (build_problem scenario 3) (\<lambda>v. Some 0)"
    unfolding solved_optimally_def by (intro exI [of _ "\<lambda>v. 0"]) (simp add: list_all_iff)
  with inst
  have "optimize_production (\<lambda>prob v. Some 0) scenario 3 3 = map (\<lambda>day. (day, 0)) [1..3]"
    by (elim conjE impE)
  then show ?thesis by (simp add: upto.simps)
qed

subsection \<open>The shape of the objective\<close>





section \<open>Re-running a configuration\<close>

lemma reset_eq:
  fixes s s' :: supply_chain
  assumes "products s = products s'" and "distributors s = distributors s'"
    and "transport_rate s = transport_rate s'" and "sim_days_override s = sim_days_override s'"
  shows "s\<lparr>all_results := [], self_total_transport_cost := 0, self_total_waste_cost := 0\<rparr> =
         s'\<lparr>all_results := [], self_total_transport_cost := 0, self_total_waste_cost := 0\<rparr>"
  using assms by (cases s, cases s') simp

lemma simulate_product_config:
  "products (simulate_product n s item) = products s \<and>
   distributors (simulate_product n s item) = distributors s \<and>
   transport_rate (simulate_product n s item) = transport_rate s \<and>
   sim_days_override (simulate_product n s item) = sim_days_override s"
  by (cases item) (simp add: simulate_product_def Let_def)

lemma foldl_simulate_product_config:
  "products (foldl (simulate_product n) s items) = products s \<and>
   distributors (foldl (simulate_product n) s items) = distributors s \<and>
   transport_rate (foldl (simulate_product n) s items) = transport_rate s \<and>
   sim_days_override (foldl (simulate_product n) s items) = sim_days_override s"
  by (induction items arbitrary: s) (simp_all add: simulate_product_config)

lemma run_simulation_config:
  assumes "run_simulation s = Inr s1"
  shows "products s1 = products s \<and> distributors s1 = distributors s \<and>
         transport_rate s1 = transport_rate s \<and> sim_days_override s1 = sim_days_override s"
  using assms
  by (auto simp: run_simulation_def Let_def foldl_simulate_product_config
      split: if_splits option.splits)

lemma run_simulation_cong:
  assumes "products s = products s'" and "distributors s = distributors s'"
    and "transport_rate s = transport_rate s'" and "sim_days_override s = sim_days_override s'"
  shows "run_simulation s = run_simulation s'"
  unfolding run_simulation_def reset_eq [OF assms] ..

text \<open>
  C10. The outcome of \<open>run_simulation\<close> (the error, or the results, the totals and the
  configuration it leaves in the object) depends on the products, the distributors, the
  transport rate and the horizon only, not on results or totals left in the object by an
  earlier run; and running it again on the object it returns gives that object again.
\<close>

theorem run_simulation_deterministic:
  "(products s = products s' \<and> distributors s = distributors s' \<and>
    transport_rate s = transport_rate s' \<and> sim_days_override s = sim_days_override s' \<longrightarrow>
      run_simulation s = run_simulation s') \<and>
   (run_simulation s = Inr s1 \<longrightarrow> run_simulation s1 = Inr s1)"
proof (intro conjI impI)
  assume "products s = products s' \<and> distributors s = distributors s' \<and>
    transport_rate s = transport_rate s' \<and> sim_days_override s = sim_days_override s'"
  then show "run_simulation s = run_simulation s'"
    by (intro run_simulation_cong) simp_all
next
  assume run: "run_simulation s = Inr s1"
  have "run_simulation s1 = run_simulation s"
    using run_simulation_config [OF run] by (intro run_simulation_cong) simp_all
  then show "run_simulation s1 = Inr s1" using run by simp
qed

theorem run_simulation_deterministic_witness:
  "run_simulation (scenario\<lparr>self_total_transport_cost := 99, self_total_waste_cost := 7\<rparr>) =
     run_simulation scenario \<and>
   run_simulation scenario_result = Inr scenario_result"
  using run_simulation_deterministic
    [of "scenario\<lparr>self_total_transport_cost := 99, self_total_waste_cost := 7\<rparr>" scenario
      scenario_result]
    run_simulation_deterministic [of scenario scenario scenario_result] run_scenario
  by simp

section \<open>Purchase rows\<close>

subsection \<open>The rows an allocation appends\<close>

lemma take_share_purchases:
  "purchases (take_share pn d distr rate k b share st) =
     purchases st @ (if 0 < share then [purchase_row pn d distr rate k share] else [])"
  by (simp add: take_share_def Let_def)

lemma take_share_batches:
  "batches (take_share pn d distr rate k b share st) =
     AList.update k (b\<lparr>current := fsub (current b) share\<rparr>) (batches st)"
  by (simp add: take_share_def Let_def)

lemma take_share_waste: "waste (take_share pn d distr rate k b share st) = waste st"
  by (simp add: take_share_def Let_def)

lemma allocate_loop_rows:
  assumes "\<And>k b share. (k, b) \<in> set bs \<Longrightarrow> 0 < share \<Longrightarrow> share \<le> current b \<Longrightarrow>
             P (purchase_row pn d distr rate k share)"
  shows "\<exists>new. purchases (fst (allocate_loop pn d distr rate avail tot bs (st, rp))) =
                 purchases st @ new \<and> (\<forall>r\<in>set new. P r)"
  using assms
proof (induction bs arbitrary: st rp)
  case Nil
  then show ?case by simp
next
  case (Cons kb bs)
  obtain k b where kb: "kb = (k, b)" by (cases kb)
  define share where
    "share = min (min (of_int (py_round (fmul (fdiv (current b) avail) (of_int tot))))
                       (current b)) rp"
  let ?st = "take_share pn d distr rate k b share st"
  have le: "share \<le> current b" by (simp add: share_def)
  have "\<exists>new. purchases (fst (allocate_loop pn d distr rate avail tot bs (?st, fsub rp share))) =
                 purchases ?st @ new \<and> (\<forall>r\<in>set new. P r)"
    by (rule Cons.IH) (rule Cons.prems, simp_all)
  then obtain new where new:
    "purchases (fst (allocate_loop pn d distr rate avail tot bs (?st, fsub rp share))) =
       purchases ?st @ new" "\<forall>r\<in>set new. P r"
    by blast
  have first: "\<forall>r\<in>set (if 0 < share then [purchase_row pn d distr rate k share] else []). P r"
    using Cons.prems [of k b share] le by (simp add: kb)
  have step: "allocate_loop pn d distr rate avail tot (kb # bs) (st, rp) =
              allocate_loop pn d distr rate avail tot bs (?st, fsub rp share)"
    unfolding kb share_def by (simp only: allocate_loop.simps Let_def)
  have "purchases ?st @ new =
        purchases st @ ((if 0 < share then [purchase_row pn d distr rate k share] else []) @ new)"
    by (simp add: take_share_purchases)
  moreover
  have "\<forall>r\<in>set ((if 0 < share then [purchase_row pn d distr rate k share] else []) @ new).
          P r"
    using new(2) first by auto
  ultimately show ?case
    unfolding step new(1) by blast
qed

lemma allocate_last_rows:
  assumes "\<And>k b share. (k, b) \<in> set bs \<Longrightarrow> 0 < share \<Longrightarrow> share \<le> current b \<Longrightarrow>
             P (purchase_row pn d distr rate k share)"
  shows "\<exists>new. purchases (allocate_last pn d distr rate bs (st, rp)) = purchases st @ new \<and>
               (\<forall>r\<in>set new. P r)"
proof (cases "bs = []")
  case True
  then show ?thesis by (simp add: allocate_last_def)
next
  case False
  obtain k b where kb: "last bs = (k, b)" by (cases "last bs")
  have "(k, b) \<in> set bs" using False kb last_in_set [of bs] by simp
  then have "0 < min rp (current b) \<Longrightarrow> P (purchase_row pn d distr rate k (min rp (current b)))"
    using assms [of k b "min rp (current b)"] by simp
  then show ?thesis
    using False by (simp add: allocate_last_def kb take_share_purchases)
qed

lemma valid_batchesD:
  "(k, b) \<in> set (valid_batches d distr bs) \<Longrightarrow>
     (k, b) \<in> set bs \<and> d - k < policy_days distr \<and> 0 < current b"
  by (simp add: valid_batches_def)

lemma allocate_rows:
  assumes "\<And>k b share. (k, b) \<in> set (batches st) \<Longrightarrow> d - k < policy_days distr \<Longrightarrow>
             0 < current b \<Longrightarrow> 0 < share \<Longrightarrow> share \<le> current b \<Longrightarrow>
             P (purchase_row pn d distr rate k share)"
  shows "\<exists>new. purchases (allocate pn d distr rate st) = purchases st @ new \<and>
               (\<forall>r\<in>set new. P r)"
proof -
  let ?valid = "valid_batches d distr (batches st)"
  let ?sorted = "sort_key fst ?valid"
  let ?acc = "allocate_loop pn d distr rate (total_available ?valid) (total_purchase distr ?valid)
                (butlast ?sorted) (st, of_int (total_purchase distr ?valid))"
  have row: "P (purchase_row pn d distr rate k share)"
    if "(k, b) \<in> set ?sorted" "0 < share" "share \<le> current b" for k b share
    using that assms [of k b share] valid_batchesD [of k b d distr "batches st"] by simp
  have "\<exists>new. purchases (fst ?acc) = purchases st @ new \<and> (\<forall>r\<in>set new. P r)"
    by (rule allocate_loop_rows) (auto intro: row dest: in_set_butlastD)
  then obtain new1 where new1: "purchases (fst ?acc) = purchases st @ new1" "\<forall>r\<in>set new1. P r"
    by blast
  have "\<exists>new. purchases (allocate_last pn d distr rate ?sorted (fst ?acc, snd ?acc)) =
               purchases (fst ?acc) @ new \<and> (\<forall>r\<in>set new. P r)"
    by (rule allocate_last_rows) (rule row)
  then obtain new2 where new2:
    "purchases (allocate_last pn d distr rate ?sorted ?acc) = purchases (fst ?acc) @ new2"
    "\<forall>r\<in>set new2. P r"
    by auto
  have "purchases (allocate pn d distr rate st) = purchases st @ (new1 @ new2)"
    by (simp add: allocate_def Let_def new1 new2)
  moreover have "\<forall>r\<in>set (new1 @ new2). P r" using new1 new2 by auto
  ultimately show ?thesis by blast
qed

lemma process_distributor_rows:
  assumes "\<And>k b share. pn \<in> set (preferred_products distr) \<Longrightarrow> \<not> skips_day distr d \<Longrightarrow>
             (k, b) \<in> set (batches st) \<Longrightarrow> d - k < policy_days distr \<Longrightarrow>
             0 < current b \<Longrightarrow> 0 < share \<Longrightarrow> share \<le> current b \<Longrightarrow>
             P (purchase_row pn d distr rate k share)"
  shows "\<exists>new. purchases (process_distributor pn d rate st distr) = purchases st @ new \<and>
               (\<forall>r\<in>set new. P r)"
proof (cases "pn \<in> set (preferred_products distr) \<and> \<not> skips_day distr d \<and>
              valid_batches d distr (batches st) \<noteq> []")
  case True
  then have "process_distributor pn d rate st distr = allocate pn d distr rate st"
    by (simp add: process_distributor_def)
  moreover have "\<exists>new. purchases (allocate pn d distr rate st) = purchases st @ new \<and>
               (\<forall>r\<in>set new. P r)"
    using True by (intro allocate_rows assms) simp_all
  ultimately show ?thesis by simp
next
  case False
  then have "process_distributor pn d rate st distr = st"
    by (auto simp: process_distributor_def)
  then show ?thesis by simp
qed

lemma foldl_process_rows:
  assumes "\<And>distr k share. distr \<in> set ds \<Longrightarrow> pn \<in> set (preferred_products distr) \<Longrightarrow>
             \<not> skips_day distr d \<Longrightarrow> d - k < policy_days distr \<Longrightarrow> 0 < share \<Longrightarrow>
             P (purchase_row pn d distr rate k share)"
  shows "\<exists>new. purchases (foldl (process_distributor pn d rate) st ds) = purchases st @ new \<and>
               (\<forall>r\<in>set new. P r)"
  using assms
proof (induction ds arbitrary: st)
  case Nil
  then show ?case by simp
next
  case (Cons distr ds)
  let ?st = "process_distributor pn d rate st distr"
  have "\<exists>new. purchases ?st = purchases st @ new \<and> (\<forall>r\<in>set new. P r)"
    by (rule process_distributor_rows) (rule Cons.prems, simp_all)
  then obtain new1 where new1: "purchases ?st = purchases st @ new1" "\<forall>r\<in>set new1. P r"
    by blast
  have "\<exists>new. purchases (foldl (process_distributor pn d rate) ?st ds) = purchases ?st @ new \<and>
               (\<forall>r\<in>set new. P r)"
    by (rule Cons.IH) (rule Cons.prems, simp_all)
  then obtain new2 where new2:
    "purchases (foldl (process_distributor pn d rate) ?st ds) = purchases ?st @ new2"
    "\<forall>r\<in>set new2. P r"
    by blast
  have "purchases (foldl (process_distributor pn d rate) st (distr # ds)) =
        purchases st @ (new1 @ new2)"
    by (simp add: new1 new2)
  moreover have "\<forall>r\<in>set (new1 @ new2). P r" using new1 new2 by auto
  ultimately show ?case by blast
qed

lemma add_batch_purchases: "purchases (add_batch sl plan d st) = purchases st"
  by (simp add: add_batch_def split: option.splits)

lemma log_inventory_purchases: "purchases (log_inventory phase d st) = purchases st"
  by (simp add: log_inventory_def)

lemma expire_loop_purchases: "purchases (expire_loop ks st) = purchases st"
  by (induction ks arbitrary: st) (simp_all split: option.splits)

lemma expire_batches_purchases: "purchases (expire_batches d st) = purchases st"
  by (simp add: expire_batches_def expire_loop_purchases)

lemmas purchases_unchanged =
  add_batch_purchases log_inventory_purchases expire_batches_purchases

lemma simulate_day_rows:
  assumes "\<And>distr k share. distr \<in> set dists \<Longrightarrow> pn \<in> set (preferred_products distr) \<Longrightarrow>
             \<not> skips_day distr d \<Longrightarrow> d - k < policy_days distr \<Longrightarrow> 0 < share \<Longrightarrow>
             P (purchase_row pn d distr rate k share)"
  shows "\<exists>new. purchases (simulate_day pn pd dists rate st d) = purchases st @ new \<and>
               (\<forall>r\<in>set new. P r)"
proof -
  let ?st = "expire_batches d (log_inventory ''Start'' d
               (add_batch (shelf_life pd) (production_plan pd) d st))"
  have "\<exists>new. purchases (foldl (process_distributor pn d rate) ?st (sort_key policy_days dists)) =
               purchases ?st @ new \<and> (\<forall>r\<in>set new. P r)"
    by (rule foldl_process_rows) (rule assms, simp_all)
  then show ?thesis
    by (simp add: simulate_day_def process_distributors_def purchases_unchanged)
qed

lemma foldl_days_rows:
  assumes "\<And>d distr k share. d \<in> set days \<Longrightarrow> distr \<in> set dists \<Longrightarrow>
             pn \<in> set (preferred_products distr) \<Longrightarrow> \<not> skips_day distr d \<Longrightarrow>
             d - k < policy_days distr \<Longrightarrow> 0 < share \<Longrightarrow>
             P (purchase_row pn d distr rate k share)"
  shows "\<exists>new. purchases (foldl (simulate_day pn pd dists rate) st days) = purchases st @ new \<and>
               (\<forall>r\<in>set new. P r)"
  using assms
proof (induction days arbitrary: st)
  case Nil
  then show ?case by simp
next
  case (Cons d days)
  let ?st = "simulate_day pn pd dists rate st d"
  have "\<exists>new. purchases ?st = purchases st @ new \<and> (\<forall>r\<in>set new. P r)"
    by (rule simulate_day_rows) (rule Cons.prems, simp_all)
  then obtain new1 where new1: "purchases ?st = purchases st @ new1" "\<forall>r\<in>set new1. P r"
    by blast
  have "\<exists>new. purchases (foldl (simulate_day pn pd dists rate) ?st days) = purchases ?st @ new \<and>
               (\<forall>r\<in>set new. P r)"
    by (rule Cons.IH) (rule Cons.prems, simp_all)
  then obtain new2 where new2:
    "purchases (foldl (simulate_day pn pd dists rate) ?st days) = purchases ?st @ new2"
    "\<forall>r\<in>set new2. P r"
    by blast
  have "purchases (foldl (simulate_day pn pd dists rate) st (d # days)) =
        purchases st @ (new1 @ new2)"
    by (simp add: new1 new2)
  moreover have "\<forall>r\<in>set (new1 @ new2). P r" using new1 new2 by auto
  ultimately show ?case by blast
qed

lemma simulate_days_rows:
  assumes "\<And>d distr k share. 1 \<le> d \<Longrightarrow> d \<le> n \<Longrightarrow> distr \<in> set dists \<Longrightarrow>
             pn \<in> set (preferred_products distr) \<Longrightarrow> \<not> skips_day distr d \<Longrightarrow>
             d - k < policy_days distr \<Longrightarrow> 0 < share \<Longrightarrow>
             P (purchase_row pn d distr rate k share)"
    and "r \<in> set (purchases (simulate_days pn pd dists rate n cost))"
  shows "P r"
proof -
  have "\<exists>new. purchases (foldl (simulate_day pn pd dists rate) (initial_state cost) [1..n]) =
               purchases (initial_state cost) @ new \<and> (\<forall>r\<in>set new. P r)"
    by (rule foldl_days_rows) (rule assms(1), simp_all)
  then show ?thesis
    using assms(2) by (auto simp: simulate_days_def initial_state_def)
qed

subsection \<open>The results of a run\<close>

lemma set_update_subset: "set (AList.update k v al) \<subseteq> insert (k, v) (set al)"
  by (induction al) auto

lemma foldl_simulate_product_results:
  assumes "(pn, res) \<in> set (all_results (foldl (simulate_product n) s items))"
  shows "(pn, res) \<in> set (all_results s) \<or>
         (\<exists>pd cost. (pn, pd) \<in> set items \<and>
            result_purchases res =
              purchases (simulate_days pn pd (distributors s) (transport_rate s) n cost))"
  using assms
proof (induction items arbitrary: s)
  case Nil
  then show ?case by simp
next
  case (Cons item items)
  obtain pn' pd' where item: "item = (pn', pd')" by (cases item)
  let ?s = "simulate_product n s item"
  have cfg: "distributors ?s = distributors s" "transport_rate ?s = transport_rate s"
    by (simp_all add: simulate_product_config)
  from Cons.prems have "(pn, res) \<in> set (all_results (foldl (simulate_product n) ?s items))"
    by simp
  from Cons.IH [OF this]
  consider "(pn, res) \<in> set (all_results ?s)"
    | "\<exists>pd cost. (pn, pd) \<in> set items \<and>
         result_purchases res =
           purchases (simulate_days pn pd (distributors s) (transport_rate s) n cost)"
    by (auto simp: cfg)
  then show ?case
  proof cases
    case 1
    let ?days = "simulate_days pn' pd' (distributors s) (transport_rate s) n
                   (self_total_transport_cost s)"
    let ?res = "\<lparr>result_purchases = purchases ?days,
         result_waste = waste_data pn' (production_plan pd') (waste ?days) n,
         result_inventory_log = inventory_log ?days\<rparr>"
    have "(pn, res) \<in> insert (pn', ?res) (set (all_results s))"
      using 1 set_update_subset [of pn' ?res "all_results s"]
      by (auto simp: simulate_product_def item Let_def)
    then consider "pn = pn'" "res = ?res" | "(pn, res) \<in> set (all_results s)"
      by auto
    then show ?thesis
    proof cases
      case 1
      then have "(pn, pd') \<in> set (item # items) \<and> result_purchases res = purchases
          (simulate_days pn pd' (distributors s) (transport_rate s) n (self_total_transport_cost s))"
        by (simp add: item)
      then show ?thesis by blast
    next
      case 2
      then show ?thesis by simp
    qed
  next
    case 2
    then show ?thesis by auto
  qed
qed

lemma run_simulation_rows:
  assumes run: "run_simulation self = Inr self'"
    and res: "(pn, res) \<in> set (all_results self')"
    and r: "r \<in> set (result_purchases res)"
    and P: "\<And>n d distr k share. sim_days_override self = Some n \<Longrightarrow> 1 \<le> d \<Longrightarrow> d \<le> n \<Longrightarrow>
              distr \<in> set (distributors self) \<Longrightarrow> pn \<in> set (preferred_products distr) \<Longrightarrow>
              \<not> skips_day distr d \<Longrightarrow> d - k < policy_days distr \<Longrightarrow> 0 < share \<Longrightarrow>
              P (purchase_row pn d distr (transport_rate self) k share)"
  shows "P r"
proof -
  let ?self0 = "self\<lparr>all_results := [], self_total_transport_cost := 0,
                     self_total_waste_cost := 0\<rparr>"
  from run res have nonempty: "products self \<noteq> []"
    by (auto simp: run_simulation_def Let_def split: if_splits)
  with run obtain n where n: "sim_days_override self = Some n"
    and self': "self' = foldl (simulate_product n) ?self0 (products self)"
    by (auto simp: run_simulation_def Let_def split: option.splits)
  from foldl_simulate_product_results [of pn res n ?self0 "products self"] res
  obtain pd cost where
    "result_purchases res =
       purchases (simulate_days pn pd (distributors self) (transport_rate self) n cost)"
    by (auto simp: self')
  with r have "r \<in> set (purchases (simulate_days pn pd (distributors self) (transport_rate self)
                                    n cost))"
    by simp
  then show ?thesis
    by (rule simulate_days_rows [rotated]) (rule P [OF n], simp_all)
qed

lemma not_skips_dayD:
  "\<not> skips_day distr d \<Longrightarrow>
     d \<le> int (length (purchase_days distr)) \<and> purchase_days distr ! nat (d - 1) \<and> d mod 7 \<noteq> 0"
  by (simp add: skips_day_def split: if_splits)

lemma scenario_first_row:
  "\<lparr>Product = ''P1'', Day = 1, Distributor = ''D1'', Batch_Day = 1, Quantity = 50,
    Shelf_Age = 0, Policy = 2, Proportion = 1 / 2, Transport_Cost = 5\<rparr>
   \<in> set (result_purchases (snd (hd (all_results scenario_result))))"
  by (simp add: scenario_result_def)

lemma scenario_first_result:
  "(''P1'', snd (hd (all_results scenario_result))) \<in> set (all_results scenario_result)"
  by (simp add: scenario_result_def)

text \<open>
  C7. Every purchase row in the results of a run has a day that is not a multiple of 7, and
  a distributor of the configuration carries the row's name and product and has a true entry
  for that day in its purchase calendar.
\<close>

theorem purchases_on_open_days:
  assumes "run_simulation self = Inr self'"
    and "(pn, res) \<in> set (all_results self')"
    and "r \<in> set (result_purchases res)"
  shows "Day r mod 7 \<noteq> 0 \<and>
         (\<exists>distr\<in>set (distributors self).
            name distr = Distributor r \<and> Product r \<in> set (preferred_products distr) \<and>
            1 \<le> Day r \<and> Day r \<le> int (length (purchase_days distr)) \<and>
            purchase_days distr ! nat (Day r - 1))"
  using assms
proof (rule run_simulation_rows)
  fix n d distr k share
  assume "distr \<in> set (distributors self)" "pn \<in> set (preferred_products distr)"
    "\<not> skips_day distr d" "1 \<le> d"
  then show "Day (purchase_row pn d distr (transport_rate self) k share) mod 7 \<noteq> 0 \<and>
         (\<exists>distr'\<in>set (distributors self).
            name distr' = Distributor (purchase_row pn d distr (transport_rate self) k share) \<and>
            Product (purchase_row pn d distr (transport_rate self) k share)
              \<in> set (preferred_products distr') \<and>
            1 \<le> Day (purchase_row pn d distr (transport_rate self) k share) \<and>
            Day (purchase_row pn d distr (transport_rate self) k share)
              \<le> int (length (purchase_days distr')) \<and>
            purchase_days distr' !
              nat (Day (purchase_row pn d distr (transport_rate self) k share) - 1))"
    using not_skips_dayD [of distr d] by (auto simp: purchase_row_def)
qed

theorem purchases_on_open_days_witness:
  "(1::int) mod 7 \<noteq> 0 \<and>
   (\<exists>distr\<in>set (distributors scenario).
      name distr = ''D1'' \<and> ''P1'' \<in> set (preferred_products distr) \<and>
      1 \<le> int (length (purchase_days distr)) \<and> purchase_days distr ! nat 0)"
  using purchases_on_open_days [OF run_scenario scenario_first_result scenario_first_row]
  by simp

text \<open>
  C8. Every purchase row in the results of a run has as shelf age the purchase day minus the
  batch day, a shelf age below the policy window of a distributor of the configuration with
  the row's name, and a positive quantity. And every row one distributor's turn appends is
  drawn from a batch that was in the ledger before the turn with a positive current
  quantity, not smaller than the row's quantity, and young enough for that distributor.
\<close>

theorem purchases_within_policy:
  "(run_simulation self = Inr self' \<and> (pn, res) \<in> set (all_results self') \<and>
    r \<in> set (result_purchases res) \<longrightarrow>
      Shelf_Age r = Day r - Batch_Day r \<and> Shelf_Age r < Policy r \<and> 0 < Quantity r \<and>
      (\<exists>distr\<in>set (distributors self).
         name distr = Distributor r \<and> policy_days distr = Policy r)) \<and>
   (r' \<in> set (new_rows st (process_distributor pn' d rate st distr')) \<longrightarrow>
      Day r' = d \<and> Policy r' = policy_days distr' \<and> Shelf_Age r' = d - Batch_Day r' \<and>
      Shelf_Age r' < Policy r' \<and> 0 < Quantity r' \<and>
      (\<exists>b. (Batch_Day r', b) \<in> set (batches st) \<and> 0 < current b \<and> Quantity r' \<le> current b))"
proof (rule conjI; rule impI)
  assume a: "run_simulation self = Inr self' \<and> (pn, res) \<in> set (all_results self') \<and>
    r \<in> set (result_purchases res)"
  let ?P = "\<lambda>r. Shelf_Age r = Day r - Batch_Day r \<and> Shelf_Age r < Policy r \<and> 0 < Quantity r \<and>
      (\<exists>distr\<in>set (distributors self).
         name distr = Distributor r \<and> policy_days distr = Policy r)"
  have "?P r"
  proof (rule run_simulation_rows [where P = ?P])
    show "run_simulation self = Inr self'" "(pn, res) \<in> set (all_results self')"
      "r \<in> set (result_purchases res)"
      using a by simp_all
  next
    fix n d distr k share
    assume "distr \<in> set (distributors self)" "d - k < policy_days distr" "(0::rat) < share"
    then show "?P (purchase_row pn d distr (transport_rate self) k share)"
      by (auto simp: purchase_row_def)
  qed
  then show "Shelf_Age r = Day r - Batch_Day r \<and> Shelf_Age r < Policy r \<and> 0 < Quantity r \<and>
      (\<exists>distr\<in>set (distributors self).
         name distr = Distributor r \<and> policy_days distr = Policy r)" .
next
  assume a: "r' \<in> set (new_rows st (process_distributor pn' d rate st distr'))"
  let ?Q = "\<lambda>r. Day r = d \<and> Policy r = policy_days distr' \<and> Shelf_Age r = d - Batch_Day r \<and>
      Shelf_Age r < Policy r \<and> 0 < Quantity r \<and>
      (\<exists>b. (Batch_Day r, b) \<in> set (batches st) \<and> 0 < current b \<and> Quantity r \<le> current b)"
  have "\<exists>new. purchases (process_distributor pn' d rate st distr') = purchases st @ new \<and>
               (\<forall>r\<in>set new. ?Q r)"
  proof (rule process_distributor_rows)
    fix k b share
    assume "(k, b) \<in> set (batches st)" "d - k < policy_days distr'" "0 < current b"
      "0 < share" "share \<le> current b"
    then show "?Q (purchase_row pn' d distr' rate k share)"
      by (auto simp: purchase_row_def)
  qed
  then have "?Q r'" using a by (auto simp: new_rows_def)
  then show "Day r' = d \<and> Policy r' = policy_days distr' \<and> Shelf_Age r' = d - Batch_Day r' \<and>
      Shelf_Age r' < Policy r' \<and> 0 < Quantity r' \<and>
      (\<exists>b. (Batch_Day r', b) \<in> set (batches st) \<and> 0 < current b \<and> Quantity r' \<le> current b)" .
qed

lemma scenario_day1_reached:
  "expire_batches 1 (log_inventory ''Start'' 1
     (add_batch (shelf_life scenario_product) (production_plan scenario_product) 1
        (initial_state 0))) = scenario_day1"
  by code_simp

lemma scenario_day1_rows:
  "new_rows scenario_day1
     (process_distributor ''P1'' 1 (fl (1 / 100)) scenario_day1 scenario_distributor) =
   [\<lparr>Product = ''P1'', Day = 1, Distributor = ''D1'', Batch_Day = 1, Quantity = 50,
     Shelf_Age = 0, Policy = 2, Proportion = 1 / 2, Transport_Cost = 5\<rparr>]"
  by code_simp

theorem purchases_within_policy_witness:
  "(\<exists>distr\<in>set (distributors scenario). name distr = ''D1'' \<and> policy_days distr = 2) \<and>
   (\<exists>b. (1, b) \<in> set (batches scenario_day1) \<and> 0 < current b \<and> 50 \<le> current b)"
  using purchases_within_policy
    [of scenario scenario_result "''P1''" "snd (hd (all_results scenario_result))"
      "\<lparr>Product = ''P1'', Day = 1, Distributor = ''D1'', Batch_Day = 1, Quantity = 50,
        Shelf_Age = 0, Policy = 2, Proportion = 1 / 2, Transport_Cost = 5\<rparr>"
      "\<lparr>Product = ''P1'', Day = 1, Distributor = ''D1'', Batch_Day = 1, Quantity = 50,
        Shelf_Age = 0, Policy = 2, Proportion = 1 / 2, Transport_Cost = 5\<rparr>"
      scenario_day1 "''P1''" 1 "fl (1 / 100)" scenario_distributor]
    run_scenario scenario_first_result scenario_first_row scenario_day1_rows
  by simp

end
